theory Spec2Isabelle
  imports Complex_Main "HOL-Library.Sublist" "HOL-Library.Extended_Nat"
begin

section \<open>Python exceptions as values\<close>

text \<open>
  Every \<^verbatim>\<open>raise\<close> of the three source files, and every built-in exception their
  expressions can throw, is a value of this type. A function that can raise returns
  \<open>py_error + 'a\<close>, with \<open>Inl\<close> for the exception.
\<close>

datatype py_error =
    ValueError string
  | IndexError
  | KeyError string
  | ZeroDivisionError
  | AssertionError string
  | AttributeError string
  | Exception string

section \<open>The task queue: \<^verbatim>\<open>scripts/start_train_queue.py\<close>\<close>

subsection \<open>Queue documents\<close>

text \<open>
  A task of the YAML document is a dictionary. The runner reads three of its keys;
  \<^verbatim>\<open>task.get(k)\<close> is \<open>None\<close> when the key is absent or null, so each key is an
  optional string. The document itself is the list under its \<^verbatim>\<open>tasks\<close> key.
\<close>

record task =
  name :: "string option"
  run :: "string option"
  git_checkout_target :: "string option"

type_synonym queue = "task list"

text \<open>Python's \<^verbatim>\<open>sub in s\<close> on strings: \<open>sub\<close> occurs in \<open>s\<close> as a contiguous block.\<close>

fun str_in :: "string \<Rightarrow> string \<Rightarrow> bool" where
  "str_in sub [] = (sub = [])"
| "str_in sub (c # cs) = (prefix sub (c # cs) \<or> str_in sub cs)"

text \<open>
  The \<^verbatim>\<open>for task in queue["tasks"]\<close> loop of \<^verbatim>\<open>load_and_validate_yaml_file\<close>:
  the three checks in the source's order, the first failing one raises.
\<close>

fun validate_tasks :: "task list \<Rightarrow> py_error + unit" where
  "validate_tasks [] = Inr ()"
| "validate_tasks (t # ts) =
     (case run t of
        None \<Rightarrow> Inl (ValueError ''run key is required in the yaml task.'')
      | Some r \<Rightarrow>
          (case git_checkout_target t of
             None \<Rightarrow> Inl (ValueError ''branch or commit key is required in the yaml task.'')
           | Some g \<Rightarrow>
               if str_in ''rm'' r
               then Inl (ValueError ''rm command is not allowed in the yaml task.'')
               else validate_tasks ts))"

text \<open>
  \<^verbatim>\<open>load_and_validate_yaml_file(path)\<close>. Its argument here is what
  \<^verbatim>\<open>yaml.safe_load\<close> returns for the file at the moment of the call.
\<close>

definition load_and_validate_yaml_file :: "queue \<Rightarrow> py_error + queue" where
  "load_and_validate_yaml_file q =
     (case validate_tasks q of Inl e \<Rightarrow> Inl e | Inr u \<Rightarrow> Inr q)"

subsection \<open>The runner\<close>

text \<open>The two \<^verbatim>\<open>subprocess.run\<close> calls of one iteration.\<close>

datatype stage = Checkout | Command

text \<open>
  What the runner does to the outside world, in order: the lines it prints, the shell
  commands it starts (each tagged with its call site) and the CUDA cache reset.
\<close>

datatype qevent =
    Starting
  | Executing nat string
  | Announce string string
  | Subprocess stage string
  | ResetCuda
  | Succeeded nat string
  | Failed nat string int
  | NoMoreTasks
  | AllExecuted

text \<open>
  The environment of a run:
  \<^item> \<open>docs i\<close> is the document on disk when iteration \<open>i\<close> loads it (the file may be
    edited between iterations; each iteration loads once and then adds one to
    \<^verbatim>\<open>task_index\<close>, so the loads are numbered by \<^verbatim>\<open>task_index\<close>);
  \<^item> \<open>sh i st cmd\<close> is the exit status of the command \<open>cmd\<close> started by iteration
    \<open>i\<close> at stage \<open>st\<close>. With \<^verbatim>\<open>check=True\<close> a non-zero status raises
    \<^verbatim>\<open>CalledProcessError\<close>.
\<close>

type_synonym shell = "nat \<Rightarrow> stage \<Rightarrow> string \<Rightarrow> int"

text \<open>
  The \<^verbatim>\<open>try\<close> block and its \<^verbatim>\<open>except subprocess.CalledProcessError\<close> handler:
  the events of one attempt. \<open>Failed i nm rc\<close> is the line the handler prints, \<open>rc\<close>
  the exit status carried by the exception.
\<close>

definition checkout_cmd :: "string \<Rightarrow> string" where
  "checkout_cmd tgt = ''git checkout '' @ tgt @ '' && git pull''"

definition attempt :: "shell \<Rightarrow> nat \<Rightarrow> string \<Rightarrow> string \<Rightarrow> string \<Rightarrow> qevent list" where
  "attempt sh i nm tgt cmd =
     (let co = checkout_cmd tgt in
      if sh i Checkout co \<noteq> 0
      then [Subprocess Checkout co, Failed i nm (sh i Checkout co)]
      else if sh i Command cmd \<noteq> 0
      then [Subprocess Checkout co, ResetCuda, Subprocess Command cmd,
            Failed i nm (sh i Command cmd)]
      else [Subprocess Checkout co, ResetCuda, Subprocess Command cmd, Succeeded i nm])"

text \<open>\<^verbatim>\<open>not task\<close>: a dictionary is falsy when it has no key.\<close>

definition falsy :: "task \<Rightarrow> bool" where
  "falsy t = (name t = None \<and> run t = None \<and> git_checkout_target t = None)"

record qresult =
  raised :: "py_error option"
  position :: nat
  events :: "qevent list"

text \<open>
  One iteration of the \<^verbatim>\<open>while\<close> body, entered with \<^verbatim>\<open>task_index < num_tasks\<close>:
  either the run ends (an uncaught exception, or the \<^verbatim>\<open>return\<close> of the
  \<^verbatim>\<open>not task\<close> branch), or it goes on with the new \<^verbatim>\<open>task_index\<close>,
  \<^verbatim>\<open>num_tasks\<close> and event log. Indexing a Python list out of range raises
  \<^verbatim>\<open>IndexError\<close>; indexing a dictionary at an absent key raises \<^verbatim>\<open>KeyError\<close>.
\<close>

definition iteration ::
  "(nat \<Rightarrow> queue) \<Rightarrow> shell \<Rightarrow> nat \<Rightarrow> qevent list \<Rightarrow> qresult + (nat \<times> enat \<times> qevent list)" where
  "iteration docs sh task_index evs =
     (case load_and_validate_yaml_file (docs task_index) of
        Inl e \<Rightarrow> Inl \<lparr>raised = Some e, position = task_index, events = evs\<rparr>
      | Inr q \<Rightarrow>
          if length q \<le> task_index
          then Inl \<lparr>raised = Some IndexError, position = task_index, events = evs\<rparr>
          else
            let t = q ! task_index in
            if falsy t
            then Inl \<lparr>raised = None, position = task_index, events = evs @ [NoMoreTasks]\<rparr>
            else
              (case name t of
                 None \<Rightarrow> Inl \<lparr>raised = Some (KeyError ''name''), position = task_index,
                               events = evs\<rparr>
               | Some nm \<Rightarrow>
                   (case git_checkout_target t of
                      None \<Rightarrow> Inl \<lparr>raised = Some (KeyError ''git_checkout_target''),
                                    position = task_index,
                                    events = evs @ [Executing task_index nm]\<rparr>
                    | Some tgt \<Rightarrow>
                        (case run t of
                           None \<Rightarrow> Inl \<lparr>raised = Some (KeyError ''run''),
                                         position = task_index,
                                         events = evs @ [Executing task_index nm]\<rparr>
                         | Some cmd \<Rightarrow>
                             Inr (task_index + 1, enat (length q),
                                  evs @ [Executing task_index nm, Announce tgt cmd]
                                      @ attempt sh task_index nm tgt cmd)))))"

text \<open>
  The \<^verbatim>\<open>while task_index < num_tasks\<close> loop. A document that keeps growing
  keeps the loop running, so the loop is a partial function: \<open>None\<close> is a run that
  never ends.
\<close>

partial_function (option) queue_loop ::
  "(nat \<Rightarrow> queue) \<Rightarrow> shell \<Rightarrow> nat \<Rightarrow> enat \<Rightarrow> qevent list \<Rightarrow> qresult option" where
  "queue_loop docs sh task_index num_tasks evs =
     (if enat task_index < num_tasks
      then (case iteration docs sh task_index evs of
              Inl r \<Rightarrow> Some r
            | Inr (i, n, evs') \<Rightarrow> queue_loop docs sh i n evs')
      else Some \<lparr>raised = None, position = task_index, events = evs @ [AllExecuted]\<rparr>)"

text \<open>\<^verbatim>\<open>start_train_queue\<close>: \<^verbatim>\<open>task_index = 0\<close>, \<^verbatim>\<open>num_tasks = float("inf")\<close>.\<close>

definition start_train_queue :: "(nat \<Rightarrow> queue) \<Rightarrow> shell \<Rightarrow> qresult option" where
  "start_train_queue docs sh = queue_loop docs sh 0 \<infinity> [Starting]"

section \<open>The training loop: \<^verbatim>\<open>src/trainers/yolo_trainer.py\<close>\<close>

subsection \<open>What a step observes\<close>

text \<open>
  The model, the loss function and \<^verbatim>\<open>utils.get_yolo_metrics\<close> are outside the three
  files; a pass sees them only through the numbers they hand back. For one batch these are
  \<^verbatim>\<open>loss.item()\<close>, the four counts of the metrics dictionary, \<^verbatim>\<open>len(y)\<close>, and, for
  \<^verbatim>\<open>log_gradients\<close>, the pair \<^verbatim>\<open>(avg_grad, avg_weight)\<close> of every parameter that
  has a gradient. All of them are Python numbers; floats are taken as rationals, so
  rounding is not part of the model, and \<^verbatim>\<open>/\<close> raises \<^verbatim>\<open>ZeroDivisionError\<close> on a
  zero divisor.
\<close>

record yolo_metrics =
  correct :: int
  incorrect_localization :: int
  incorrect_other :: int
  incorrect_background :: int

record batch =
  loss :: rat
  result_dict :: yolo_metrics
  len_y :: nat
  grads :: "(rat \<times> rat) list"

text \<open>Python's true division of two numbers.\<close>

definition py_div :: "rat \<Rightarrow> rat \<Rightarrow> py_error + rat" where
  "py_div a b = (if b = 0 then Inl ZeroDivisionError else Inr (a / b))"

text \<open>
  \<^verbatim>\<open>log_gradients\<close>: for every parameter with a gradient, \<^verbatim>\<open>avg_grad / avg_weight\<close>
  and a printed line.
\<close>

fun log_gradients :: "(rat \<times> rat) list \<Rightarrow> py_error + unit" where
  "log_gradients [] = Inr ()"
| "log_gradients ((avg_grad, avg_weight) # ps) =
     (case py_div avg_grad avg_weight of
        Inl e \<Rightarrow> Inl e
      | Inr avg_grad_weight \<Rightarrow> log_gradients ps)"

text \<open>
  The local counters of \<^verbatim>\<open>train_step\<close> and \<^verbatim>\<open>test_step\<close>; \<open>loss_total\<close> is
  \<^verbatim>\<open>train_loss\<close> in the one and \<^verbatim>\<open>test_loss\<close> in the other.
\<close>

record counters =
  loss_total :: rat
  num_correct :: int
  num_incorrect_localization :: int
  num_incorrect_other :: int
  num_incorrect_background :: int
  num_predictions :: int

definition zero_counters :: counters where
  "zero_counters =
     \<lparr>loss_total = 0, num_correct = 0, num_incorrect_localization = 0,
      num_incorrect_other = 0, num_incorrect_background = 0, num_predictions = 0\<rparr>"

text \<open>The \<^verbatim>\<open>+=\<close> lines of a loop body.\<close>

definition accumulate :: "counters \<Rightarrow> batch \<Rightarrow> counters" where
  "accumulate c x =
     \<lparr>loss_total = loss_total c + loss x,
      num_correct = num_correct c + correct (result_dict x),
      num_incorrect_localization =
        num_incorrect_localization c + incorrect_localization (result_dict x),
      num_incorrect_other = num_incorrect_other c + incorrect_other (result_dict x),
      num_incorrect_background =
        num_incorrect_background c + incorrect_background (result_dict x),
      num_predictions = num_predictions c + int (len_y x)\<rparr>"

text \<open>
  The four ratios of a metrics dictionary, in the order the dictionary display evaluates
  them, under the keys \<open>pre\<close>\<^verbatim>\<open>accuracy\<close> and so on.
\<close>

definition ratios :: "string \<Rightarrow> counters \<Rightarrow> py_error + (string \<times> rat) list" where
  "ratios pre c =
     (if num_predictions c = 0 then Inl ZeroDivisionError
      else Inr
        [(pre @ ''accuracy'', of_int (num_correct c) / of_int (num_predictions c)),
         (pre @ ''percent_incorrect_localization'',
            of_int (num_incorrect_localization c) / of_int (num_predictions c)),
         (pre @ ''percent_incorrect_other'',
            of_int (num_incorrect_other c) / of_int (num_predictions c)),
         (pre @ ''percent_incorrect_background'',
            of_int (num_incorrect_background c) / of_int (num_predictions c))])"

text \<open>
  What the trainer does to the outside world: \<^verbatim>\<open>model.train()\<close>,
  \<^verbatim>\<open>model.eval()\<close>, \<^verbatim>\<open>optimizer.step()\<close>, \<^verbatim>\<open>run_manager.log_metrics(d, step)\<close>,
  \<^verbatim>\<open>run_manager.save_model(model, epoch)\<close> and \<^verbatim>\<open>lr_scheduler.step()\<close>.
\<close>

datatype tevent =
    ModelTrain
  | ModelEval
  | OptimizerStep
  | LogMetrics "(string \<times> rat) list" rat
  | SaveModel int
  | SchedulerStep

type_synonym outcome = "tevent list \<times> py_error option"

subsection \<open>\<^verbatim>\<open>train_step\<close>\<close>

text \<open>
  Lines 66 to 79: the metric point of a flush. The dictionary is built first
  (\<^verbatim>\<open>"train/loss": loss.item()\<close>, the loss of the batch at hand, then the four
  ratios), then the step \<^verbatim>\<open>epoch + batch / len(dataloader)\<close>.
\<close>

definition train_point ::
  "int \<Rightarrow> nat \<Rightarrow> nat \<Rightarrow> batch \<Rightarrow> counters \<Rightarrow> py_error + tevent" where
  "train_point epoch n b x c =
     (case ratios ''train/'' c of
        Inl e \<Rightarrow> Inl e
      | Inr rs \<Rightarrow>
          (case py_div (of_nat b) (of_nat n) of
             Inl e \<Rightarrow> Inl e
           | Inr part \<Rightarrow>
               Inr (LogMetrics ((''train/loss'', loss x) # rs) (of_int epoch + part))))"

text \<open>Lines 80 to 85: the counters set back to zero after a flush.\<close>

definition reset :: "counters \<Rightarrow> counters" where
  "reset c =
     c\<lparr>num_correct := 0, num_incorrect_localization := 0, num_incorrect_other := 0,
       num_incorrect_background := 0, num_predictions := 0\<rparr>"

text \<open>
  The condition \<^verbatim>\<open>batch != 0 and batch % log_interval == 0\<close>: \<^verbatim>\<open>and\<close> does not
  evaluate its right operand for batch 0, and \<^verbatim>\<open>%\<close> raises on a zero modulus.
  Python's \<^verbatim>\<open>%\<close> on integers takes the sign of the divisor, as \<open>mod\<close> on \<open>int\<close> does.
\<close>

definition flush_due :: "nat \<Rightarrow> int \<Rightarrow> py_error + bool" where
  "flush_due b log_interval =
     (if b = 0 then Inr False
      else if log_interval = 0 then Inl ZeroDivisionError
      else Inr (int b mod log_interval = 0))"

text \<open>
  The \<^verbatim>\<open>for batch, (X, y) in enumerate(dataloader)\<close> loop of \<^verbatim>\<open>train_step\<close>:
  \<open>b\<close> is \<^verbatim>\<open>batch\<close>, \<open>n\<close> is \<^verbatim>\<open>len(dataloader)\<close>, \<open>c\<close> the counters on entry.
\<close>

fun train_batches ::
  "int \<Rightarrow> int \<Rightarrow> nat \<Rightarrow> nat \<Rightarrow> counters \<Rightarrow> batch list \<Rightarrow> outcome" where
  "train_batches log_interval epoch n b c [] = ([], None)"
| "train_batches log_interval epoch n b c (x # xs) =
     (let c1 = accumulate c x in
      case log_gradients (grads x) of
        Inl e \<Rightarrow> ([OptimizerStep], Some e)
      | Inr u \<Rightarrow>
          (case flush_due b log_interval of
             Inl e \<Rightarrow> ([OptimizerStep], Some e)
           | Inr False \<Rightarrow>
               (let (evs, r) = train_batches log_interval epoch n (Suc b) c1 xs
                in (OptimizerStep # evs, r))
           | Inr True \<Rightarrow>
               (case train_point epoch n b x c1 of
                  Inl e \<Rightarrow> ([OptimizerStep], Some e)
                | Inr p \<Rightarrow>
                    (let (evs, r) = train_batches log_interval epoch n (Suc b) (reset c1) xs
                     in (OptimizerStep # p # evs, r)))))"

definition train_step :: "batch list \<Rightarrow> int \<Rightarrow> int \<Rightarrow> outcome" where
  "train_step dataloader log_interval epoch =
     (let (evs, r) =
        train_batches log_interval epoch (length dataloader) 0 zero_counters dataloader
      in (ModelTrain # evs, r))"

subsection \<open>\<^verbatim>\<open>test_step\<close>\<close>

text \<open>
  The loop only accumulates; the one metric point is built after it, \<^verbatim>\<open>"val/loss"\<close>
  first: \<^verbatim>\<open>test_loss / len(dataloader)\<close>.
\<close>

definition test_point :: "nat \<Rightarrow> int \<Rightarrow> counters \<Rightarrow> py_error + tevent" where
  "test_point n epoch c =
     (case py_div (loss_total c) (of_nat n) of
        Inl e \<Rightarrow> Inl e
      | Inr avg \<Rightarrow>
          (case ratios ''val/'' c of
             Inl e \<Rightarrow> Inl e
           | Inr rs \<Rightarrow> Inr (LogMetrics ((''val/loss'', avg) # rs) (of_int epoch))))"

definition test_step :: "batch list \<Rightarrow> int \<Rightarrow> outcome" where
  "test_step dataloader epoch =
     (case test_point (length dataloader) epoch (foldl accumulate zero_counters dataloader) of
        Inl e \<Rightarrow> ([ModelEval], Some e)
      | Inr p \<Rightarrow> ([ModelEval, p], None))"

subsection \<open>\<^verbatim>\<open>train\<close>\<close>

text \<open>
  The environment of a run of \<^verbatim>\<open>train\<close>:
  \<^item> \<open>train_obs e\<close> and \<open>val_obs e\<close> are what the batches of the two data loaders give in
    epoch \<open>e\<close> (the model changes from epoch to epoch, so the numbers do);
  \<^item> \<open>lr k\<close> is \<^verbatim>\<open>optimizer.param_groups[0]["lr"]\<close> after \<open>k\<close> calls of
    \<^verbatim>\<open>lr_scheduler.step()\<close>.
\<close>

record env =
  train_obs :: "int \<Rightarrow> batch list"
  val_obs :: "int \<Rightarrow> batch list"
  lr :: "nat \<Rightarrow> rat"

text \<open>
  Lines 195 to 197: \<^verbatim>\<open>epoch % checkpoint_interval == 0 or epoch == epoch_end - 1\<close>.
  The left operand is evaluated first and raises on a zero interval.
\<close>

definition checkpoint_due :: "int \<Rightarrow> int \<Rightarrow> int \<Rightarrow> py_error + bool" where
  "checkpoint_due epoch checkpoint_interval epoch_end =
     (if checkpoint_interval = 0 then Inl ZeroDivisionError
      else Inr (epoch mod checkpoint_interval = 0 \<or> epoch = epoch_end - 1))"

text \<open>
  The body of \<^verbatim>\<open>for epoch in range(epoch_start, epoch_end)\<close>, over the epochs still to
  run; \<open>k\<close> counts the scheduler steps made so far. An exception of a pass ends the run.
\<close>

fun epochs :: "env \<Rightarrow> int \<Rightarrow> int \<Rightarrow> int \<Rightarrow> nat \<Rightarrow> int list \<Rightarrow> outcome" where
  "epochs E epoch_end checkpoint_interval log_interval k [] = ([], None)"
| "epochs E epoch_end checkpoint_interval log_interval k (epoch # rest) =
     (case train_step (train_obs E epoch) log_interval epoch of
        (evs1, Some e) \<Rightarrow> (evs1, Some e)
      | (evs1, None) \<Rightarrow>
          (case test_step (val_obs E epoch) (epoch + 1) of
             (evs2, Some e) \<Rightarrow> (evs1 @ evs2, Some e)
           | (evs2, None) \<Rightarrow>
               (let evs3 = evs1 @ evs2 @ [LogMetrics [(''learning_rate'', lr E k)] (of_int (epoch + 1))]
                in case checkpoint_due epoch checkpoint_interval epoch_end of
                     Inl e \<Rightarrow> (evs3, Some e)
                   | Inr due \<Rightarrow>
                       (let (evs, r) =
                          epochs E epoch_end checkpoint_interval log_interval (Suc k) rest
                        in (evs3 @ (if due then [SaveModel epoch] else []) @ [SchedulerStep] @ evs,
                            r)))))"

definition train :: "env \<Rightarrow> int \<Rightarrow> int \<Rightarrow> int \<Rightarrow> int \<Rightarrow> outcome" where
  "train E epoch_start epoch_end checkpoint_interval log_interval =
     (let (evs, r) =
        epochs E epoch_end checkpoint_interval log_interval 0 [epoch_start..epoch_end - 1]
      in (LogMetrics [(''learning_rate'', lr E 0)] (of_int epoch_start) # evs, r))"

section \<open>The entry point: \<^verbatim>\<open>src/train.py\<close>\<close>

text \<open>The command-line arguments the entry point reads after \<^verbatim>\<open>parse_args\<close>.\<close>

record args =
  num_epochs :: int
  batch_size :: int
  lr_scheduler :: string
  run_id :: string
  continue_from_checkpoint_run_id :: "string option"
  continue_from_checkpoint_path :: "string option"
  device :: string

text \<open>
  The calls the entry point makes into the modules it imports, in order. The modules
  (\<^verbatim>\<open>data_setup\<close>, \<^verbatim>\<open>model_builder\<close>, \<^verbatim>\<open>run_manager\<close>, \<^verbatim>\<open>engine\<close>) are
  outside the three files: each call is an event, and \<^verbatim>\<open>load_checkpoint\<close>, whose
  return value the entry point uses, is a parameter.
\<close>

datatype mevent =
    Input string
  | PrintStarting string
  | CreateDataloaders int
  | BuildModel string
  | NewRunManager string
  | LoadCheckpoint string "string option"
  | LogData
  | LogFiles
  | EngineTrain int int
  | EndRun

type_synonym loader = "string \<Rightarrow> string option \<Rightarrow> py_error + int"

text \<open>
  Lines 66 to 70: the choice of \<^verbatim>\<open>epoch_start\<close>. \<^verbatim>\<open>load_checkpoint\<close> is called
  only in the first branch, with the path the condition has just found to be \<open>None\<close>.
\<close>

definition resume :: "loader \<Rightarrow> args \<Rightarrow> mevent list \<times> (py_error + int)" where
  "resume load_checkpoint a =
     (case (continue_from_checkpoint_run_id a, continue_from_checkpoint_path a) of
        (Some rid, None) \<Rightarrow>
          ([LoadCheckpoint rid (continue_from_checkpoint_path a)],
           load_checkpoint rid (continue_from_checkpoint_path a))
      | _ \<Rightarrow> ([], Inr 0))"

text \<open>
  \<^verbatim>\<open>train(args)\<close> of \<^verbatim>\<open>train.py\<close> (named \<open>train_args\<close> here, \<open>train\<close> being the
  trainer's function). \<open>cuda\<close> is \<^verbatim>\<open>torch.cuda.is_available()\<close>. The parser defines no
  \<^verbatim>\<open>--lr\<close>, so \<^verbatim>\<open>args.lr\<close> of the fixed-scheduler branch raises
  \<^verbatim>\<open>AttributeError\<close>.
\<close>

definition train_args :: "bool \<Rightarrow> loader \<Rightarrow> args \<Rightarrow> mevent list \<times> py_error option" where
  "train_args cuda load_checkpoint a =
     (if device a \<noteq> ''cpu'' \<and> device a \<noteq> ''cuda''
      then ([], Some (AssertionError ''Invalid device''))
      else if device a = ''cuda'' \<and> \<not> cuda
      then ([], Some (Exception ''CUDA is not available on this device''))
      else
        (let evs = [CreateDataloaders (batch_size a), BuildModel (device a),
                    NewRunManager (run_id a)]
         in case resume load_checkpoint a of
              (evs1, Inl e) \<Rightarrow> (evs @ evs1, Some e)
            | (evs1, Inr epoch_start) \<Rightarrow>
                if lr_scheduler a \<noteq> ''custom''
                then (evs @ evs1, Some (AttributeError ''lr''))
                else (evs @ evs1 @
                        [LogData, LogFiles,
                         EngineTrain epoch_start (epoch_start + num_epochs a), EndRun],
                      None)))"

text \<open>
  \<^verbatim>\<open>str.lower()\<close> on the answer. Strings are byte strings here; only the ASCII
  capitals change.
\<close>

definition lower_char :: "char \<Rightarrow> char" where
  "lower_char c =
     (case map_of (zip ''ABCDEFGHIJKLMNOPQRSTUVWXYZ'' ''abcdefghijklmnopqrstuvwxyz'') c of
        Some l \<Rightarrow> l
      | None \<Rightarrow> c)"

definition lower :: "string \<Rightarrow> string" where
  "lower s = map lower_char s"

text \<open>
  The \<^verbatim>\<open>try\<close> block of the \<^verbatim>\<open>__main__\<close> section, from \<^verbatim>\<open>input\<close> on; \<open>inp\<close> is
  the line the user types. The exception of the refusal is not a
  \<^verbatim>\<open>KeyboardInterrupt\<close>, so it leaves the block.
\<close>

definition main :: "bool \<Rightarrow> loader \<Rightarrow> args \<Rightarrow> string \<Rightarrow> mevent list \<times> py_error option" where
  "main cuda load_checkpoint a inp =
     (if lower inp \<noteq> ''yes''
      then ([Input (run_id a)], Some (Exception ''Type yes on input...''))
      else
        (let (evs, r) = train_args cuda load_checkpoint a
         in ([Input (run_id a), PrintStarting (run_id a)] @ evs, r)))"

section \<open>Vocabulary of the properties\<close>

text \<open>
  A task passes validation when it has a \<^verbatim>\<open>run\<close> and a \<^verbatim>\<open>git_checkout_target\<close>
  and its \<^verbatim>\<open>run\<close> does not contain \<^verbatim>\<open>rm\<close>. A document is well formed when every
  task passes validation and has the \<^verbatim>\<open>name\<close> the runner prints.
\<close>

definition valid_task :: "task \<Rightarrow> bool" where
  "valid_task t =
     (case (run t, git_checkout_target t) of
        (Some r, Some g) \<Rightarrow> \<not> str_in ''rm'' r
      | _ \<Rightarrow> False)"

definition well_formed :: "queue \<Rightarrow> bool" where
  "well_formed q = list_all (\<lambda>t. valid_task t \<and> name t \<noteq> None) q"

text \<open>The events of the iteration that runs task \<open>t\<close> at position \<open>i\<close>.\<close>

definition task_events :: "shell \<Rightarrow> nat \<Rightarrow> task \<Rightarrow> qevent list" where
  "task_events sh i t =
     (case (name t, git_checkout_target t, run t) of
        (Some nm, Some tgt, Some cmd) \<Rightarrow>
          [Executing i nm, Announce tgt cmd] @ attempt sh i nm tgt cmd
      | _ \<Rightarrow> [])"

text \<open>
  The report lines of a log (the success and the failure line of an attempt) and its
  checkout commands, to count attempts and outcomes.
\<close>

fun is_report :: "qevent \<Rightarrow> bool" where
  "is_report (Succeeded i nm) = True"
| "is_report (Failed i nm rc) = True"
| "is_report e = False"

fun is_checkout :: "qevent \<Rightarrow> bool" where
  "is_checkout (Subprocess Checkout c) = True"
| "is_checkout e = False"

text \<open>
  What the claim of failure isolation expects for task \<open>t\<close> at position \<open>i\<close>: one
  report, a failure with the exit status when the checkout or the command exits non-zero,
  a success otherwise; and one checkout command.
\<close>

definition verdict :: "shell \<Rightarrow> nat \<Rightarrow> task \<Rightarrow> qevent list" where
  "verdict sh i t =
     (case (name t, git_checkout_target t, run t) of
        (Some nm, Some tgt, Some cmd) \<Rightarrow>
          [if sh i Checkout (checkout_cmd tgt) \<noteq> 0 then Failed i nm (sh i Checkout (checkout_cmd tgt))
           else if sh i Command cmd \<noteq> 0 then Failed i nm (sh i Command cmd)
           else Succeeded i nm]
      | _ \<Rightarrow> [])"

definition checkout_of :: "task \<Rightarrow> qevent list" where
  "checkout_of t =
     (case git_checkout_target t of
        Some tgt \<Rightarrow> [Subprocess Checkout (checkout_cmd tgt)]
      | None \<Rightarrow> [])"

subsection \<open>Example documents and environments\<close>

definition mk_task :: "string \<Rightarrow> string \<Rightarrow> string \<Rightarrow> task" where
  "mk_task nm cmd tgt = \<lparr>name = Some nm, run = Some cmd, git_checkout_target = Some tgt\<rparr>"

definition three_tasks :: queue where
  "three_tasks =
     [mk_task ''a'' ''python train.py --run_id a'' ''main'',
      mk_task ''b'' ''python train.py --run_id b'' ''gone'',
      mk_task ''c'' ''python train.py --run_id c'' ''dev'']"

definition second_checkout_fails :: shell where
  "second_checkout_fails i st cmd = (if i = 1 \<and> st = Checkout then 1 else 0)"

definition shrinking :: "nat \<Rightarrow> queue" where
  "shrinking i = (if i = 0 then three_tasks else [hd three_tasks])"

definition all_succeed :: shell where
  "all_succeed i st cmd = 0"

definition growing :: "nat \<Rightarrow> queue" where
  "growing i = (if i = 0 then butlast three_tasks else three_tasks)"

definition growing_late :: "nat \<Rightarrow> queue" where
  "growing_late i = (if i = 0 then [hd three_tasks] else three_tasks)"

definition warmup_task :: task where
  "warmup_task = mk_task ''w'' ''python train.py --run_id warmup'' ''main''"

definition edited :: "nat \<Rightarrow> queue" where
  "edited i =
     (if i = 0 then three_tasks
      else [hd three_tasks, hd (tl three_tasks),
            \<lparr>name = Some ''c'', run = Some ''python train.py --run_id c'',
             git_checkout_target = None\<rparr>])"

subsection \<open>Vocabulary for the trainer\<close>

text \<open>
  A batch is sound when it has at least one sample and no parameter of average weight
  zero: the divisions of a pass on sound batches do not fail. An epoch is sound when its
  training batches are sound and its validation batches are sound and at least one.
\<close>

definition sound_batch :: "batch \<Rightarrow> bool" where
  "sound_batch x = (0 < len_y x \<and> list_all (\<lambda>(g, w). w \<noteq> 0) (grads x))"

text \<open>
  Read off an event log: the steps of the learning-rate points (the points whose
  dictionary is the single key \<^verbatim>\<open>learning_rate\<close>), the epochs of the saved
  checkpoints, and how often a given event occurs.
\<close>

fun lr_step :: "tevent \<Rightarrow> rat list" where
  "lr_step (LogMetrics [(k, v)] s) = (if k = ''learning_rate'' then [s] else [])"
| "lr_step e = []"

definition lr_steps :: "tevent list \<Rightarrow> rat list" where
  "lr_steps evs = concat (map lr_step evs)"

fun save_epoch :: "tevent \<Rightarrow> int list" where
  "save_epoch (SaveModel e) = [e]"
| "save_epoch e = []"

definition saved :: "tevent list \<Rightarrow> int list" where
  "saved evs = concat (map save_epoch evs)"

definition passes :: "tevent \<Rightarrow> tevent list \<Rightarrow> nat" where
  "passes m evs = length (filter (\<lambda>e. e = m) evs)"

definition sound_epoch :: "env \<Rightarrow> int \<Rightarrow> bool" where
  "sound_epoch E e =
     (list_all sound_batch (train_obs E e) \<and> val_obs E e \<noteq> [] \<and>
      list_all sound_batch (val_obs E e))"

definition sound_run :: "env \<Rightarrow> int \<Rightarrow> int \<Rightarrow> bool" where
  "sound_run E epoch_start epoch_end = list_all (sound_epoch E) [epoch_start..epoch_end - 1]"

text \<open>Example observations, environment and command line.\<close>

definition obs :: "rat \<Rightarrow> batch" where
  "obs l =
     \<lparr>loss = l,
      result_dict = \<lparr>correct = 1, incorrect_localization = 1, incorrect_other = 0,
                     incorrect_background = 0\<rparr>,
      len_y = 2, grads = [(1, 2)]\<rparr>"

definition small_env :: env where
  "small_env = \<lparr>train_obs = (\<lambda>e. [obs 1, obs 2, obs 3]), val_obs = (\<lambda>e. [obs 4]),
                lr = (\<lambda>k. 1 / of_nat (Suc k))\<rparr>"

definition window3 :: "batch list" where
  "window3 = [obs 1, obs 2, obs 3]"

definition cli :: args where
  "cli = \<lparr>num_epochs = 10, batch_size = 32, lr_scheduler = ''custom'', run_id = ''r2'',
          continue_from_checkpoint_run_id = Some ''r1'',
          continue_from_checkpoint_path = Some ''checkpoints/r1/epoch_5.pth'',
          device = ''cpu''\<rparr>"

definition epoch_six :: loader where
  "epoch_six rid path = Inr 6"


section \<open>Properties of the task queue\<close>

lemma str_in_sublist: "str_in sub s = sublist sub s"
  by (induction s) (simp_all add: sublist_Cons_right)

lemma str_in_iff: "str_in sub s \<longleftrightarrow> (\<exists>ps ss. s = ps @ sub @ ss)"
  by (simp add: str_in_sublist sublist_def)

lemma validate_tasks_ok: "validate_tasks q = Inr () \<longleftrightarrow> list_all valid_task q"
  by (induction q) (auto simp: valid_task_def split: option.splits)

lemma validate_tasks_error:
  "\<not> list_all valid_task q \<Longrightarrow> \<exists>m. validate_tasks q = Inl (ValueError m)"
  by (induction q) (auto simp: valid_task_def split: option.splits)

lemma load_valid: "list_all valid_task q \<Longrightarrow> load_and_validate_yaml_file q = Inr q"
  using validate_tasks_ok [of q] by (simp add: load_and_validate_yaml_file_def)

lemma load_invalid:
  "\<not> list_all valid_task q \<Longrightarrow> \<exists>m. load_and_validate_yaml_file q = Inl (ValueError m)"
  using validate_tasks_error [of q] by (auto simp add: load_and_validate_yaml_file_def)

lemma well_formed_valid: "well_formed q \<Longrightarrow> list_all valid_task q"
  by (simp add: well_formed_def list_all_iff)

lemma iteration_well_formed:
  assumes "well_formed (docs i)" and "i < length (docs i)"
  shows "iteration docs sh i evs =
           Inr (Suc i, enat (length (docs i)), evs @ task_events sh i (docs i ! i))"
proof -
  let ?t = "docs i ! i"
  have "?t \<in> set (docs i)" using assms(2) by simp
  with assms(1) have v: "valid_task ?t" and n: "name ?t \<noteq> None"
    by (simp_all add: well_formed_def list_all_iff)
  from v n obtain nm tgt cmd where
    f: "name ?t = Some nm" "git_checkout_target ?t = Some tgt" "run ?t = Some cmd"
    by (auto simp: valid_task_def split: option.splits)
  have l: "load_and_validate_yaml_file (docs i) = Inr (docs i)"
    using assms(1) by (simp add: load_valid well_formed_valid)
  show ?thesis
    using assms(2) f by (simp add: iteration_def l falsy_def task_events_def)
qed

lemma iteration_rejected:
  assumes "load_and_validate_yaml_file (docs i) = Inl e"
  shows "iteration docs sh i evs = Inl \<lparr>raised = Some e, position = i, events = evs\<rparr>"
  using assms by (simp add: iteration_def)

lemma queue_loop_rejected:
  assumes "load_and_validate_yaml_file (docs i) = Inl e" and "enat i < n"
  shows "queue_loop docs sh i n evs = Some \<lparr>raised = Some e, position = i, events = evs\<rparr>"
  using assms by (subst queue_loop.simps) (simp add: iteration_rejected)

lemma queue_loop_done:
  "\<not> enat i < n \<Longrightarrow>
   queue_loop docs sh i n evs = Some \<lparr>raised = None, position = i, events = evs @ [AllExecuted]\<rparr>"
  by (subst queue_loop.simps) simp

lemma queue_loop_prefix:
  assumes "well_formed q" and "k \<le> length q"
    and "\<forall>j. i \<le> j \<and> j < k \<longrightarrow> docs j = q"
    and "i < k" and "enat i < n"
  shows "queue_loop docs sh i n evs =
           queue_loop docs sh k (enat (length q))
             (evs @ concat (map (\<lambda>j. task_events sh j (q ! j)) [i..<k]))"
  using assms(3-5)
proof (induction "k - i" arbitrary: i n evs)
  case 0
  then show ?case by simp
next
  case (Suc d)
  have di: "docs i = q" using Suc.prems by simp
  have it: "iteration docs sh i evs = Inr (Suc i, enat (length q), evs @ task_events sh i (q ! i))"
    using iteration_well_formed [of docs i sh evs] assms(1,2) Suc.prems di by simp
  have step: "queue_loop docs sh i n evs =
      queue_loop docs sh (Suc i) (enat (length q)) (evs @ task_events sh i (q ! i))"
    using Suc.prems(3) by (subst queue_loop.simps) (simp add: it)
  show ?case
  proof (cases "Suc i = k")
    case True
    then have "[i..<k] = [i]" by (metis upt_rec lessI less_irrefl_nat)
    then show ?thesis using step True by simp
  next
    case False
    then have lt: "Suc i < k" using Suc.prems by simp
    have "queue_loop docs sh (Suc i) (enat (length q)) (evs @ task_events sh i (q ! i)) =
          queue_loop docs sh k (enat (length q))
            ((evs @ task_events sh i (q ! i)) @ concat (map (\<lambda>j. task_events sh j (q ! j)) [Suc i..<k]))"
    proof (rule Suc.hyps(1))
      show "d = k - Suc i" using Suc.hyps(2) by simp
      show "\<forall>j. Suc i \<le> j \<and> j < k \<longrightarrow> docs j = q" using Suc.prems(1) by simp
      show "Suc i < k" by (rule lt)
      show "enat (Suc i) < enat (length q)" using lt assms(2) by simp
    qed
    moreover have "[i..<k] = i # [Suc i..<k]" using Suc.prems(2) by (simp add: upt_rec)
    ultimately show ?thesis using step by simp
  qed
qed

lemma filter_concat_map_single:
  assumes "\<And>x. x \<in> set xs \<Longrightarrow> filter P (f x) = g x"
  shows "filter P (concat (map f xs)) = concat (map g xs)"
  using assms by (induction xs) simp_all

lemma reports_task_events:
  "filter is_report (task_events sh i t) = verdict sh i t"
  by (auto simp: task_events_def verdict_def attempt_def Let_def split: option.splits)

lemma checkouts_task_events:
  "name t \<noteq> None \<Longrightarrow> valid_task t \<Longrightarrow> filter is_checkout (task_events sh i t) = checkout_of t"
  by (auto simp: task_events_def checkout_of_def attempt_def Let_def valid_task_def split: option.splits)

lemma static_run:
  assumes "well_formed q" and "q \<noteq> []"
  shows "start_train_queue (\<lambda>i. q) sh =
           Some \<lparr>raised = None, position = length q,
                 events = [Starting] @ concat (map (\<lambda>j. task_events sh j (q ! j)) [0..<length q])
                            @ [AllExecuted]\<rparr>"
proof -
  have "queue_loop (\<lambda>i. q) sh 0 \<infinity> [Starting] =
        queue_loop (\<lambda>i. q) sh (length q) (enat (length q))
          ([Starting] @ concat (map (\<lambda>j. task_events sh j (q ! j)) [0..<length q]))"
    using assms by (intro queue_loop_prefix) simp_all
  then show ?thesis
    by (simp add: start_train_queue_def queue_loop_done)
qed

lemmas ex_defs = three_tasks_def mk_task_def shrinking_def growing_def all_succeed_def
  second_checkout_fails_def warmup_task_def edited_def growing_late_def
lemmas run_defs = iteration_def load_and_validate_yaml_file_def falsy_def attempt_def
  checkout_cmd_def

subsection \<open>Shrinking and growing documents\<close>

text \<open>
  Claim C3. The runner is claimed to stop cleanly, without error, when the document
  shrinks so that the counter is at or past its new length. The code compares
  \<^verbatim>\<open>task_index\<close> with the length of the document loaded by the iteration before,
  loads the shorter document and indexes it: \<^verbatim>\<open>queue["tasks"][task_index]\<close> raises
  \<^verbatim>\<open>IndexError\<close>, which nothing catches. Three tasks, cut to one while the first
  runs: the run ends at position 1 with that exception.
\<close>

theorem shrink_raises:
  "start_train_queue shrinking all_succeed =
     Some \<lparr>raised = Some IndexError, position = 1,
           events = [Starting, Executing 0 ''a'', Announce ''main'' ''python train.py --run_id a'',
                     Subprocess Checkout ''git checkout main && git pull'', ResetCuda,
                     Subprocess Command ''python train.py --run_id a'', Succeeded 0 ''a'']\<rparr>"
  unfolding start_train_queue_def
  apply (subst queue_loop.simps)
  apply (simp add: run_defs ex_defs)
  apply (subst queue_loop.simps)
  apply (simp add: run_defs ex_defs)
  done

text \<open>
  A document that grows from two tasks to three while the first task runs is followed to
  position 3. One that grows while its last task runs is not: the length was taken before
  the edit.
\<close>

lemma grow_continues:
  "\<exists>evs. start_train_queue growing all_succeed =
     Some \<lparr>raised = None, position = 3, events = evs\<rparr>"
  unfolding start_train_queue_def
  apply (subst queue_loop.simps)
  apply (simp add: run_defs ex_defs)
  apply (subst queue_loop.simps)
  apply (simp add: run_defs ex_defs)
  apply (subst queue_loop.simps)
  apply (simp add: run_defs ex_defs)
  apply (subst queue_loop.simps)
  apply (simp add: run_defs ex_defs)
  done

lemma grow_late_ignored:
  "\<exists>evs. start_train_queue growing_late all_succeed =
     Some \<lparr>raised = None, position = 1, events = evs\<rparr>"
  unfolding start_train_queue_def
  apply (subst queue_loop.simps)
  apply (simp add: run_defs ex_defs)
  apply (subst queue_loop.simps)
  apply (simp add: run_defs ex_defs)
  done

subsection \<open>Failure isolation\<close>

text \<open>
  Claim C4. For a document that passes validation, has a name for every task and stays
  as it is during the run, the run ends without exception at position \<open>length q\<close>
  whatever the exit statuses are. Every task is attempted (one checkout command per
  position, in order) and gets exactly one report: a failure line with the position, the
  name and the exit status when its checkout or its command exits non-zero, a success
  line otherwise.
\<close>

theorem failure_isolation:
  assumes "well_formed q" and "q \<noteq> []"
  shows "\<exists>evs. start_train_queue (\<lambda>i. q) sh =
                 Some \<lparr>raised = None, position = length q, events = evs\<rparr>
           \<and> filter is_checkout evs = concat (map (\<lambda>i. checkout_of (q ! i)) [0..<length q])
           \<and> filter is_report evs = concat (map (\<lambda>i. verdict sh i (q ! i)) [0..<length q])"
proof -
  let ?evs = "[Starting] @ concat (map (\<lambda>j. task_events sh j (q ! j)) [0..<length q])
                @ [AllExecuted]"
  have wf: "\<And>j. j \<in> set [0..<length q] \<Longrightarrow> name (q ! j) \<noteq> None \<and> valid_task (q ! j)"
    using assms(1) by (simp add: well_formed_def list_all_length)
  have c: "filter is_checkout (concat (map (\<lambda>j. task_events sh j (q ! j)) [0..<length q])) =
           concat (map (\<lambda>i. checkout_of (q ! i)) [0..<length q])"
    by (rule filter_concat_map_single) (simp add: checkouts_task_events wf)
  have r: "filter is_report (concat (map (\<lambda>j. task_events sh j (q ! j)) [0..<length q])) =
           concat (map (\<lambda>i. verdict sh i (q ! i)) [0..<length q])"
    by (rule filter_concat_map_single) (simp add: reports_task_events)
  have "start_train_queue (\<lambda>i. q) sh =
          Some \<lparr>raised = None, position = length q, events = ?evs\<rparr>"
    using assms by (rule static_run)
  moreover have "filter is_checkout ?evs = concat (map (\<lambda>i. checkout_of (q ! i)) [0..<length q])"
    using c by simp
  moreover have "filter is_report ?evs = concat (map (\<lambda>i. verdict sh i (q ! i)) [0..<length q])"
    using r by simp
  ultimately show ?thesis by blast
qed

text \<open>
  The instance of the claim: three tasks, the checkout of the second one fails. Position
  3 is reached, with one failure and two successes.
\<close>

lemma three_tasks_wf: "well_formed three_tasks"
  by (simp add: well_formed_def valid_task_def ex_defs)

lemma upt3: "[0..<3] = [0, 1, 2]"
  by (simp add: upt_rec)

theorem failure_isolation_witness:
  "well_formed three_tasks \<and> three_tasks \<noteq> [] \<and>
   (\<exists>evs. start_train_queue (\<lambda>i. three_tasks) second_checkout_fails =
            Some \<lparr>raised = None, position = 3, events = evs\<rparr>
      \<and> filter is_checkout evs =
          [Subprocess Checkout ''git checkout main && git pull'',
           Subprocess Checkout ''git checkout gone && git pull'',
           Subprocess Checkout ''git checkout dev && git pull'']
      \<and> filter is_report evs = [Succeeded 0 ''a'', Failed 1 ''b'' 1, Succeeded 2 ''c''])"
proof -
  have wf: "well_formed three_tasks" by (rule three_tasks_wf)
  have ne: "three_tasks \<noteq> []" by (simp add: three_tasks_def)
  have l: "length three_tasks = 3" by (simp add: three_tasks_def)
  have c: "concat (map (\<lambda>i. checkout_of (three_tasks ! i)) [0..<3]) =
          [Subprocess Checkout ''git checkout main && git pull'',
           Subprocess Checkout ''git checkout gone && git pull'',
           Subprocess Checkout ''git checkout dev && git pull'']"
    by (simp add: upt3 checkout_of_def checkout_cmd_def ex_defs)
  have r: "concat (map (\<lambda>i. verdict second_checkout_fails i (three_tasks ! i)) [0..<3]) =
          [Succeeded 0 ''a'', Failed 1 ''b'' 1, Succeeded 2 ''c'']"
    by (simp add: upt3 verdict_def checkout_cmd_def ex_defs)
  show ?thesis
    using failure_isolation [OF wf ne, of second_checkout_fails] wf ne
    by (simp add: l c r)
qed

subsection \<open>Validation\<close>

text \<open>
  Claim C9. A document with a task whose \<^verbatim>\<open>run\<close> has the two characters
  \<^verbatim>\<open>rm\<close> anywhere is rejected with a \<^verbatim>\<open>ValueError\<close>; the iteration that loads
  it adds no event, so no command of that document is started, and a run that starts on
  it ends at position 0 having only printed its first line.
\<close>

theorem rm_rejected:
  assumes "t \<in> set q" and "run t = Some (ps @ ''rm'' @ ss)"
  shows "\<exists>m. load_and_validate_yaml_file q = Inl (ValueError m)
           \<and> (\<forall>docs sh i n evs. docs i = q \<and> enat i < n \<longrightarrow>
                queue_loop docs sh i n evs =
                  Some \<lparr>raised = Some (ValueError m), position = i, events = evs\<rparr>)
           \<and> (\<forall>docs sh. docs 0 = q \<longrightarrow>
                start_train_queue docs sh =
                  Some \<lparr>raised = Some (ValueError m), position = 0, events = [Starting]\<rparr>)"
proof -
  have "str_in ''rm'' (ps @ ''rm'' @ ss)"
    unfolding str_in_iff by blast
  then have "\<not> valid_task t"
    using assms(2) by (simp add: valid_task_def split: option.splits)
  then have "\<not> list_all valid_task q"
    using assms(1) by (auto simp: list_all_iff)
  then obtain m where m: "load_and_validate_yaml_file q = Inl (ValueError m)"
    using load_invalid by blast
  have "\<And>docs sh i n evs. docs i = q \<and> enat i < n \<Longrightarrow>
          queue_loop docs sh i n evs =
            Some \<lparr>raised = Some (ValueError m), position = i, events = evs\<rparr>"
    using m by (simp add: queue_loop_rejected)
  moreover have "\<And>docs sh. docs 0 = q \<Longrightarrow>
          start_train_queue docs sh =
            Some \<lparr>raised = Some (ValueError m), position = 0, events = [Starting]\<rparr>"
    using m by (simp add: start_train_queue_def queue_loop_rejected)
  ultimately show ?thesis using m by blast
qed

text \<open>
  A command that deletes nothing: the run id \<^verbatim>\<open>warmup\<close> has the two characters.
\<close>

theorem rm_rejected_witness:
  "warmup_task \<in> set [hd three_tasks, warmup_task] \<and>
   run warmup_task = Some (''python train.py --run_id wa'' @ ''rm'' @ ''up'') \<and>
   load_and_validate_yaml_file [hd three_tasks, warmup_task] =
     Inl (ValueError ''rm command is not allowed in the yaml task.'') \<and>
   start_train_queue (\<lambda>i. [hd three_tasks, warmup_task]) all_succeed =
     Some \<lparr>raised = Some (ValueError ''rm command is not allowed in the yaml task.''),
           position = 0, events = [Starting]\<rparr>"
proof -
  have a: "warmup_task \<in> set [hd three_tasks, warmup_task]" by simp
  have b: "run warmup_task = Some (''python train.py --run_id wa'' @ ''rm'' @ ''up'')"
    by (simp add: ex_defs)
  have c: "load_and_validate_yaml_file [hd three_tasks, warmup_task] =
     Inl (ValueError ''rm command is not allowed in the yaml task.'')"
    by (simp add: load_and_validate_yaml_file_def ex_defs)
  show ?thesis
    using rm_rejected [OF a b] a b c by auto
qed

text \<open>
  Claim C10. The document is well formed for the first \<open>k\<close> iterations and then edited
  so that some task is invalid. The \<open>k\<close> tasks already run keep their events; iteration
  \<open>k\<close> raises the \<^verbatim>\<open>ValueError\<close> of validation, which is not caught: the run ends
  at position \<open>k\<close> and none of the tasks from \<open>k\<close> on is attempted, whatever their exit
  statuses would have been.
\<close>

theorem edit_aborts_queue:
  assumes "well_formed q" and "0 < k" and "k < length q"
    and "\<forall>i<k. docs i = q"
    and "\<exists>t \<in> set (docs k). run t = None \<or> git_checkout_target t = None
                             \<or> (\<exists>r. run t = Some r \<and> str_in ''rm'' r)"
  shows "\<exists>m. load_and_validate_yaml_file (docs k) = Inl (ValueError m) \<and>
             start_train_queue docs sh =
               Some \<lparr>raised = Some (ValueError m), position = k,
                     events = [Starting] @ concat (map (\<lambda>j. task_events sh j (q ! j)) [0..<k])\<rparr>"
proof -
  from assms(5) obtain t where "t \<in> set (docs k)" and "\<not> valid_task t"
    by (auto simp: valid_task_def split: option.splits)
  then have "\<not> list_all valid_task (docs k)"
    by (auto simp: list_all_iff)
  then obtain m where m: "load_and_validate_yaml_file (docs k) = Inl (ValueError m)"
    using load_invalid by blast
  have "queue_loop docs sh 0 \<infinity> [Starting] =
        queue_loop docs sh k (enat (length q))
          ([Starting] @ concat (map (\<lambda>j. task_events sh j (q ! j)) [0..<k]))"
    using assms(1-4) by (intro queue_loop_prefix) simp_all
  also have "\<dots> = Some \<lparr>raised = Some (ValueError m), position = k,
                     events = [Starting] @ concat (map (\<lambda>j. task_events sh j (q ! j)) [0..<k])\<rparr>"
    using m assms(3) by (simp add: queue_loop_rejected)
  finally show ?thesis using m by (auto simp: start_train_queue_def)
qed

theorem edit_aborts_queue_witness:
  "well_formed three_tasks \<and> (0::nat) < 1 \<and> 1 < length three_tasks \<and>
   edited 0 = three_tasks \<and>
   (\<exists>t \<in> set (edited 1). run t = None \<or> git_checkout_target t = None
                           \<or> (\<exists>r. run t = Some r \<and> str_in ''rm'' r)) \<and>
   start_train_queue edited all_succeed =
     Some \<lparr>raised = Some (ValueError ''branch or commit key is required in the yaml task.''),
           position = 1,
           events = [Starting, Executing 0 ''a'', Announce ''main'' ''python train.py --run_id a'',
                     Subprocess Checkout ''git checkout main && git pull'', ResetCuda,
                     Subprocess Command ''python train.py --run_id a'', Succeeded 0 ''a'']\<rparr>"
proof -
  have wf: "well_formed three_tasks" by (rule three_tasks_wf)
  have k: "(0::nat) < 1" by simp
  have l: "1 < length three_tasks" by (simp add: three_tasks_def)
  have d: "\<forall>i<1. edited i = three_tasks" by (simp add: edited_def)
  have e: "\<exists>t \<in> set (edited 1). run t = None \<or> git_checkout_target t = None
                           \<or> (\<exists>r. run t = Some r \<and> str_in ''rm'' r)"
    by (simp add: ex_defs)
  have ev: "task_events all_succeed 0 (three_tasks ! 0) =
     [Executing 0 ''a'', Announce ''main'' ''python train.py --run_id a'',
                     Subprocess Checkout ''git checkout main && git pull'', ResetCuda,
                     Subprocess Command ''python train.py --run_id a'', Succeeded 0 ''a'']"
    by (simp add: task_events_def attempt_def checkout_cmd_def ex_defs)
  have lo: "load_and_validate_yaml_file (edited 1) =
      Inl (ValueError ''branch or commit key is required in the yaml task.'')"
    by (simp add: load_and_validate_yaml_file_def ex_defs)
  have u: "[0..<1] = [0::nat]" by simp
  obtain m where m: "load_and_validate_yaml_file (edited 1) = Inl (ValueError m)"
    and r: "start_train_queue edited all_succeed =
              Some \<lparr>raised = Some (ValueError m), position = 1,
                    events = [Starting] @
                      concat (map (\<lambda>j. task_events all_succeed j (three_tasks ! j)) [0..<1])\<rparr>"
    using edit_aborts_queue [OF wf k l d e, of all_succeed] by blast
  from m lo have "m = ''branch or commit key is required in the yaml task.''" by simp
  with r have "start_train_queue edited all_succeed =
     Some \<lparr>raised = Some (ValueError ''branch or commit key is required in the yaml task.''),
           position = 1,
           events = [Starting, Executing 0 ''a'', Announce ''main'' ''python train.py --run_id a'',
                     Subprocess Checkout ''git checkout main && git pull'', ResetCuda,
                     Subprocess Command ''python train.py --run_id a'', Succeeded 0 ''a'']\<rparr>"
    by (simp only: u list.map concat.simps append_Nil2 ev append_Cons append_Nil)
  moreover have "edited 0 = three_tasks" by (simp add: edited_def)
  ultimately show ?thesis using wf k l e by blast
qed

section \<open>Properties of the training loop\<close>

lemma lr_steps_simps [simp]:
  "lr_steps [] = []" "lr_steps (e # evs) = lr_step e @ lr_steps evs"
  "lr_steps (xs @ ys) = lr_steps xs @ lr_steps ys"
  by (simp_all add: lr_steps_def)

lemma saved_simps [simp]:
  "saved [] = []" "saved (e # evs) = save_epoch e @ saved evs"
  "saved (xs @ ys) = saved xs @ saved ys"
  by (simp_all add: saved_def)

lemma passes_simps [simp]:
  "passes m [] = 0" "passes m (e # evs) = (if e = m then 1 else 0) + passes m evs"
  "passes m (xs @ ys) = passes m xs + passes m ys"
  by (simp_all add: passes_def)

lemma log_gradients_ok: "list_all (\<lambda>(g, w). w \<noteq> 0) ps \<Longrightarrow> log_gradients ps = Inr ()"
  by (induction ps) (auto simp: py_div_def)

lemma train_point_shape:
  "train_point epoch n b x c = Inr p \<Longrightarrow>
     \<exists>r rs s. p = LogMetrics ((''train/loss'', loss x) # r # rs) s"
  by (auto simp: train_point_def ratios_def py_div_def split: if_splits)

lemma train_point_quiet:
  assumes "train_point epoch n b x c = Inr p"
  shows "lr_step p = []" and "save_epoch p = []" and "p \<noteq> ModelTrain" and "p \<noteq> ModelEval"
  using train_point_shape [OF assms] by auto

lemma train_point_ok:
  "num_predictions c \<noteq> 0 \<Longrightarrow> n \<noteq> 0 \<Longrightarrow> \<exists>p. train_point epoch n b x c = Inr p"
  by (simp add: train_point_def ratios_def py_div_def)

lemma train_batches_quiet:
  "lr_steps (fst (train_batches li ep n b c xs)) = [] \<and>
   saved (fst (train_batches li ep n b c xs)) = [] \<and>
   passes ModelTrain (fst (train_batches li ep n b c xs)) = 0 \<and>
   passes ModelEval (fst (train_batches li ep n b c xs)) = 0"
proof (induction xs arbitrary: b c)
  case Nil
  show ?case by simp
next
  case (Cons x xs)
  show ?case
    using Cons.IH [of "Suc b" "accumulate c x"] Cons.IH [of "Suc b" "reset (accumulate c x)"]
    by (auto simp: Let_def train_point_quiet split: sum.splits bool.splits prod.splits)
qed

lemma train_batches_ok:
  assumes "li \<noteq> 0" and "n \<noteq> 0"
  shows "list_all sound_batch xs \<Longrightarrow> 0 \<le> num_predictions c \<Longrightarrow>
         snd (train_batches li ep n b c xs) = None"
proof (induction xs arbitrary: b c)
  case Nil
  show ?case by simp
next
  case (Cons x xs)
  have sx: "sound_batch x" and sxs: "list_all sound_batch xs" using Cons.prems(1) by simp_all
  have g: "log_gradients (grads x) = Inr ()"
    using sx by (simp add: sound_batch_def log_gradients_ok)
  have pos: "0 < num_predictions (accumulate c x)"
    using sx Cons.prems(2) by (simp add: accumulate_def sound_batch_def)
  have f: "flush_due b li = Inr (b \<noteq> 0 \<and> int b mod li = 0)"
    using assms(1) by (simp add: flush_due_def)
  have a: "snd (train_batches li ep n (Suc b) (accumulate c x) xs) = None"
    using Cons.IH [OF sxs] pos by simp
  have r: "snd (train_batches li ep n (Suc b) (reset (accumulate c x)) xs) = None"
    using Cons.IH [OF sxs] by (simp add: reset_def)
  obtain p where p: "train_point ep n b x (accumulate c x) = Inr p"
    using train_point_ok [of "accumulate c x" n ep b x] pos assms(2) by auto
  show ?case
    using a r by (simp add: g f p Let_def case_prod_unfold split: bool.splits)
qed

lemma train_step_ok:
  assumes "li \<noteq> 0" and "list_all sound_batch dl"
  shows "snd (train_step dl li ep) = None"
proof (cases dl)
  case Nil
  then show ?thesis by (simp add: train_step_def)
next
  case (Cons x xs)
  then have "length dl \<noteq> 0" by simp
  then have "snd (train_batches li ep (length dl) 0 zero_counters dl) = None"
    using assms by (intro train_batches_ok) (simp_all add: zero_counters_def)
  then show ?thesis by (simp add: train_step_def case_prod_unfold)
qed

lemma train_step_marks:
  "lr_steps (fst (train_step dl li ep)) = [] \<and>
   saved (fst (train_step dl li ep)) = [] \<and>
   passes ModelTrain (fst (train_step dl li ep)) = 1 \<and>
   passes ModelEval (fst (train_step dl li ep)) = 0"
  using train_batches_quiet [of li ep "length dl" 0 zero_counters dl]
  by (simp add: train_step_def case_prod_unfold Let_def)

lemma foldl_accumulate_predictions:
  "num_predictions (foldl accumulate c dl) = num_predictions c + int (sum_list (map len_y dl))"
  by (induction dl arbitrary: c) (simp_all add: accumulate_def)

lemma test_point_shape:
  "test_point n epoch c = Inr p \<Longrightarrow> \<exists>avg r rs s. p = LogMetrics ((''val/loss'', avg) # r # rs) s"
  by (auto simp: test_point_def ratios_def py_div_def split: if_splits)

lemma test_step_marks:
  "lr_steps (fst (test_step dl ep)) = [] \<and>
   saved (fst (test_step dl ep)) = [] \<and>
   passes ModelTrain (fst (test_step dl ep)) = 0 \<and>
   passes ModelEval (fst (test_step dl ep)) = 1"
  by (auto simp: test_step_def split: sum.splits dest: test_point_shape)

lemma test_step_zero:
  assumes "sum_list (map len_y dl) = 0"
  shows "test_step dl ep = ([ModelEval], Some ZeroDivisionError)"
  using assms
  by (simp add: test_step_def test_point_def py_div_def ratios_def
      foldl_accumulate_predictions zero_counters_def)

lemma test_step_nonzero:
  assumes "sum_list (map len_y dl) \<noteq> 0"
  shows "\<exists>p. test_step dl ep = ([ModelEval, p], None)"
proof -
  have "dl \<noteq> []" using assms by auto
  then show ?thesis using assms
    by (simp add: test_step_def test_point_def py_div_def ratios_def
      foldl_accumulate_predictions zero_counters_def)
qed

lemma sound_sum: "dl \<noteq> [] \<Longrightarrow> list_all sound_batch dl \<Longrightarrow> sum_list (map len_y dl) \<noteq> 0"
  by (cases dl) (simp_all add: sound_batch_def)

lemma test_step_ok:
  "dl \<noteq> [] \<Longrightarrow> list_all sound_batch dl \<Longrightarrow> snd (test_step dl ep) = None"
  using test_step_nonzero [OF sound_sum, of dl ep] by auto

lemma epochs_run:
  assumes "ci \<noteq> 0" and "li \<noteq> 0"
  shows "list_all (sound_epoch E) es \<Longrightarrow>
         snd (epochs E ee ci li k es) = None \<and>
         passes ModelTrain (fst (epochs E ee ci li k es)) = length es \<and>
         passes ModelEval (fst (epochs E ee ci li k es)) = length es \<and>
         lr_steps (fst (epochs E ee ci li k es)) = map (\<lambda>e. of_int (e + 1)) es \<and>
         saved (fst (epochs E ee ci li k es)) = filter (\<lambda>e. e mod ci = 0 \<or> e = ee - 1) es"
proof (induction es arbitrary: k)
  case Nil
  show ?case by simp
next
  case (Cons e es)
  have se: "sound_epoch E e" and ses: "list_all (sound_epoch E) es"
    using Cons.prems by simp_all
  obtain evs1 where t: "train_step (train_obs E e) li e = (evs1, None)"
    using train_step_ok [OF assms(2), of "train_obs E e" e] se
    by (cases "train_step (train_obs E e) li e") (simp add: sound_epoch_def)
  obtain evs2 where v: "test_step (val_obs E e) (e + 1) = (evs2, None)"
    using test_step_ok [of "val_obs E e" "e + 1"] se
    by (cases "test_step (val_obs E e) (e + 1)") (simp add: sound_epoch_def)
  have m1: "lr_steps evs1 = [] \<and> saved evs1 = [] \<and> passes ModelTrain evs1 = 1 \<and>
            passes ModelEval evs1 = 0"
    using train_step_marks [of "train_obs E e" li e] by (simp add: t)
  have m2: "lr_steps evs2 = [] \<and> saved evs2 = [] \<and> passes ModelTrain evs2 = 0 \<and>
            passes ModelEval evs2 = 1"
    using test_step_marks [of "val_obs E e" "e + 1"] by (simp add: v)
  have c: "checkpoint_due e ci ee = Inr (e mod ci = 0 \<or> e = ee - 1)"
    using assms(1) by (simp add: checkpoint_due_def)
  show ?case
    using Cons.IH [OF ses, of "Suc k"] m1 m2
    by (simp add: t v c Let_def case_prod_unfold)
qed

lemma upto_shift: "map (\<lambda>x. x + 1) [s..e - 1] = [s + 1..e]"
  by (auto simp: list_eq_iff_nth_eq)

lemma lr_positions:
  assumes "s \<le> e"
  shows "(of_int s :: rat) # map (\<lambda>x. of_int (x + 1)) [s..e - 1] = map of_int [s..e]"
proof -
  have "map (\<lambda>x. (of_int (x + 1) :: rat)) [s..e - 1] = map of_int (map (\<lambda>x. x + 1) [s..e - 1])"
    by (simp add: comp_def)
  also have "\<dots> = map of_int [s + 1..e]" by (simp only: upto_shift)
  finally show ?thesis using assms by (simp add: upto_rec1 [of s e])
qed

lemma train_run:
  assumes "ci \<noteq> 0" and "li \<noteq> 0" and "sound_run E s e"
  shows "snd (train E s e ci li) = None"
    and "passes ModelTrain (fst (train E s e ci li)) = nat (e - s)"
    and "passes ModelEval (fst (train E s e ci li)) = nat (e - s)"
    and "lr_steps (fst (train E s e ci li)) = of_int s # map (\<lambda>x. of_int (x + 1)) [s..e - 1]"
    and "saved (fst (train E s e ci li)) = filter (\<lambda>x. x mod ci = 0 \<or> x = e - 1) [s..e - 1]"
  using epochs_run [OF assms(1,2), of E "[s..e - 1]" e 0] assms(3)
  by (simp_all add: train_def sound_run_def case_prod_unfold)

lemma small_env_sound: "sound_run small_env s e"
  by (simp add: sound_run_def sound_epoch_def small_env_def obs_def sound_batch_def list_all_iff)

subsection \<open>Checkpoint cadence\<close>

lemma multiples_below:
  assumes "1 \<le> (k::int)"
  shows "{e. 0 \<le> e \<and> e \<le> n - 1 \<and> e mod k = 0} = {e. \<exists>j. 0 \<le> j \<and> e = j * k \<and> e < n}"
proof (rule set_eqI, rule iffI)
  fix x assume "x \<in> {e. 0 \<le> e \<and> e \<le> n - 1 \<and> e mod k = 0}"
  then have x0: "0 \<le> x" and xn: "x \<le> n - 1" and xm: "x mod k = 0" by simp_all
  from xm have "k dvd x" by (simp add: dvd_eq_mod_eq_0)
  then have "x div k * k = x" by (rule dvd_div_mult_self)
  moreover have "0 \<le> x div k" using x0 assms by (simp add: pos_imp_zdiv_nonneg_iff)
  moreover have "x < n" using xn by simp
  ultimately have "0 \<le> x div k \<and> x = (x div k) * k \<and> x < n" by simp
  then show "x \<in> {e. \<exists>j. 0 \<le> j \<and> e = j * k \<and> e < n}" by blast
next
  fix x assume "x \<in> {e. \<exists>j. 0 \<le> j \<and> e = j * k \<and> e < n}"
  then obtain j where j: "0 \<le> j" and xj: "x = j * k" and xn: "x < n" by blast
  have "0 \<le> j * k" using j assms by simp
  moreover have "j * k mod k = 0" by simp
  ultimately show "x \<in> {e. 0 \<le> e \<and> e \<le> n - 1 \<and> e mod k = 0}" using xj xn by simp
qed

lemma cadence_set:
  assumes "1 \<le> (n::int)"
  shows "set (filter (\<lambda>e. P e \<or> e = n - 1) [0..n - 1]) =
         {e. 0 \<le> e \<and> e \<le> n - 1 \<and> P e} \<union> {n - 1}"
  using assms by auto

text \<open>
  Claim C5. For an interval \<open>k \<ge> 1\<close> and the range \<open>[0, n)\<close> with \<open>n \<ge> 1\<close>, on sound
  epochs, the run ends without exception and the checkpoints saved are, in order and each
  once, the epochs of the range that are a multiple of \<open>k\<close> or equal to \<open>n - 1\<close>: as a
  set, \<open>{0, k, 2k, \<dots>}\<close> below \<open>n\<close> together with \<open>n - 1\<close>.
\<close>

theorem checkpoint_cadence:
  assumes "1 \<le> k" and "1 \<le> n" and "li \<noteq> 0" and "sound_run E 0 n"
  shows "snd (train E 0 n k li) = None \<and>
         saved (fst (train E 0 n k li)) = filter (\<lambda>e. e mod k = 0 \<or> e = n - 1) [0..n - 1] \<and>
         set (saved (fst (train E 0 n k li))) =
           {e. \<exists>j. 0 \<le> j \<and> e = j * k \<and> e < n} \<union> {n - 1} \<and>
         distinct (saved (fst (train E 0 n k li)))"
proof -
  have k0: "k \<noteq> 0" using assms(1) by simp
  have r: "snd (train E 0 n k li) = None"
    using train_run(1) [OF k0 assms(3,4)] .
  have s: "saved (fst (train E 0 n k li)) = filter (\<lambda>e. e mod k = 0 \<or> e = n - 1) [0..n - 1]"
    using train_run(5) [OF k0 assms(3,4)] .
  have t: "set (saved (fst (train E 0 n k li))) =
           {e. \<exists>j. 0 \<le> j \<and> e = j * k \<and> e < n} \<union> {n - 1}"
    unfolding s cadence_set [OF assms(2), of "\<lambda>e. e mod k = 0"] multiples_below [OF assms(1)] ..
  have d: "distinct (saved (fst (train E 0 n k li)))"
    unfolding s by (rule distinct_filter) (rule distinct_upto)
  from r s t d show ?thesis by blast
qed

theorem checkpoint_cadence_witness:
  "(1::int) \<le> 2 \<and> (1::int) \<le> 4 \<and> (2::int) \<noteq> 0 \<and> sound_run small_env 0 4 \<and>
   snd (train small_env 0 4 2 2) = None \<and>
   saved (fst (train small_env 0 4 2 2)) = [0, 2, 3]"
proof -
  have u: "[0..(3::int)] = [0, 1, 2, 3]" by (simp add: upto_rec1)
  have f: "filter (\<lambda>e. e mod 2 = 0 \<or> e = 4 - 1) [0..(4::int) - 1] = [0, 2, 3]"
    by (simp add: u)
  have a: "(1::int) \<le> 2" and b: "(1::int) \<le> 4" and c: "(2::int) \<noteq> 0" by simp_all
  have d: "sound_run small_env 0 4" by (rule small_env_sound)
  have "snd (train small_env 0 4 2 2) = None \<and> saved (fst (train small_env 0 4 2 2)) = [0, 2, 3]"
    using checkpoint_cadence [OF a b c d] unfolding f by blast
  with a b c d show ?thesis by blast
qed

subsection \<open>Passes and learning-rate points\<close>

text \<open>
  Claim C1, as stated, asks for \<open>2 * (epoch_end - epoch_start)\<close> learning-rate points.
  The code logs the rate once before the loop, at \<open>epoch_start\<close>, and once at the end of
  each epoch \<open>e\<close>, at \<open>e + 1\<close>: for the range \<open>[0, 2)\<close> that is three points, at 0, 1
  and 2, not four.
\<close>

theorem lr_log_points_counterexample:
  "snd (train small_env 0 2 1 2) = None \<and>
   lr_steps (fst (train small_env 0 2 1 2)) = [0, 1, 2] \<and>
   length (lr_steps (fst (train small_env 0 2 1 2))) \<noteq> 2 * nat (2 - 0)"
proof -
  have u: "[0..(1::int)] = [0, 1]" by (simp add: upto_rec1)
  have "lr_steps (fst (train small_env 0 2 1 2)) = [0, 1, 2]"
    using train_run(4) [of 1 2 small_env 0 2] small_env_sound [of 0 2] by (simp add: u)
  moreover have "snd (train small_env 0 2 1 2) = None"
    using train_run(1) [of 1 2 small_env 0 2] small_env_sound [of 0 2] by simp
  ultimately show ?thesis by simp
qed

text \<open>
  Claim C1, amended. For \<open>s \<le> e\<close>, a non-zero checkpoint and log interval and sound
  epochs, the run ends without exception after \<open>e - s\<close> training passes and \<open>e - s\<close>
  evaluation passes, and the learning-rate points are at \<open>s, s + 1, \<dots>, e\<close>, one for
  each, \<open>e - s + 1\<close> in all.
\<close>

theorem lr_log_points:
  assumes "s \<le> e" and "ci \<noteq> 0" and "li \<noteq> 0" and "sound_run E s e"
  shows "snd (train E s e ci li) = None \<and>
         passes ModelTrain (fst (train E s e ci li)) = nat (e - s) \<and>
         passes ModelEval (fst (train E s e ci li)) = nat (e - s) \<and>
         lr_steps (fst (train E s e ci li)) = map of_int [s..e] \<and>
         length (lr_steps (fst (train E s e ci li))) = nat (e - s) + 1"
proof -
  have l: "lr_steps (fst (train E s e ci li)) = map of_int [s..e]"
    using train_run(4) [OF assms(2-4)] lr_positions [OF assms(1)] by simp
  have "length (map (of_int :: int \<Rightarrow> rat) [s..e]) = nat (e - s) + 1"
    using assms(1) by simp
  with l train_run(1-3) [OF assms(2-4)] show ?thesis by simp
qed

theorem lr_log_points_witness:
  "(0::int) \<le> 2 \<and> (1::int) \<noteq> 0 \<and> (2::int) \<noteq> 0 \<and> sound_run small_env 0 2 \<and>
   snd (train small_env 0 2 1 2) = None \<and>
   passes ModelTrain (fst (train small_env 0 2 1 2)) = 2 \<and>
   passes ModelEval (fst (train small_env 0 2 1 2)) = 2 \<and>
   lr_steps (fst (train small_env 0 2 1 2)) = [0, 1, 2] \<and>
   length (lr_steps (fst (train small_env 0 2 1 2))) = 3"
proof -
  have u: "[0..(2::int)] = [0, 1, 2]" by (simp add: upto_rec1)
  have a: "(0::int) \<le> 2" and b: "(1::int) \<noteq> 0" and c: "(2::int) \<noteq> 0" by simp_all
  have d: "sound_run small_env 0 2" by (rule small_env_sound)
  show ?thesis
    using lr_log_points [OF a b c d] d by (simp add: u)
qed

subsection \<open>Metric windows\<close>

lemmas pass_defs = train_step_def test_step_def test_point_def train_point_def ratios_def
  py_div_def flush_due_def accumulate_def reset_def zero_counters_def obs_def

text \<open>
  Claim C6. The claim wants the average of the losses of the window in each flushed
  point. The code puts \<^verbatim>\<open>loss.item()\<close> of the batch at hand under
  \<^verbatim>\<open>train/loss\<close>, and never reads the \<^verbatim>\<open>train_loss\<close> it accumulates. Three
  batches of losses 1, 2 and 3 with two samples each, a log interval of 2: the point
  flushed at batch 2 carries 3; the sum of the window is 6, its average 2 per batch and
  1 per sample.
\<close>

theorem flush_reports_last_loss:
  "train_step window3 2 0 =
     ([ModelTrain, OptimizerStep, OptimizerStep, OptimizerStep,
       LogMetrics [(''train/loss'', 3), (''train/accuracy'', 1 / 2),
                   (''train/percent_incorrect_localization'', 1 / 2),
                   (''train/percent_incorrect_other'', 0),
                   (''train/percent_incorrect_background'', 0)] (2 / 3)], None) \<and>
   loss_total (foldl accumulate zero_counters window3) / of_nat (length window3) = 2 \<and>
   loss_total (foldl accumulate zero_counters window3) /
     of_int (num_predictions (foldl accumulate zero_counters window3)) = 1"
  by (simp add: window3_def pass_defs)

text \<open>
  Claim C7, as stated, wants a defined result from a flush of zero samples. An evaluation
  pass over an empty loader divides by \<^verbatim>\<open>len(dataloader)\<close>, which is zero.
\<close>

theorem empty_eval_raises:
  "test_step [] 1 = ([ModelEval], Some ZeroDivisionError)"
  by (simp add: pass_defs)

text \<open>
  Claim C7, amended. A flush of the training loop yields a metric point when the sample
  count of the window is not zero, and then sets the four category counters and the
  sample count to zero for the batches that follow; with a sample count of zero it raises
  \<^verbatim>\<open>ZeroDivisionError\<close>. An evaluation pass raises \<^verbatim>\<open>ZeroDivisionError\<close> when it
  has seen no sample and logs one point otherwise.
\<close>

theorem flush_policy:
  "(log_gradients (grads x) = Inr () \<and> flush_due b li = Inr True \<and> n \<noteq> 0 \<longrightarrow>
      (if num_predictions (accumulate c x) = 0
       then train_batches li ep n b c (x # xs) = ([OptimizerStep], Some ZeroDivisionError)
       else \<exists>p c'. train_point ep n b x (accumulate c x) = Inr p \<and>
              c' = reset (accumulate c x) \<and>
              train_batches li ep n b c (x # xs) =
                (OptimizerStep # p # fst (train_batches li ep n (Suc b) c' xs),
                 snd (train_batches li ep n (Suc b) c' xs)) \<and>
              num_correct c' = 0 \<and> num_incorrect_localization c' = 0 \<and>
              num_incorrect_other c' = 0 \<and> num_incorrect_background c' = 0 \<and>
              num_predictions c' = 0)) \<and>
   (sum_list (map len_y dl) = 0 \<longrightarrow> test_step dl e = ([ModelEval], Some ZeroDivisionError)) \<and>
   (sum_list (map len_y dl) \<noteq> 0 \<longrightarrow> (\<exists>p. test_step dl e = ([ModelEval, p], None)))"
proof (intro conjI impI)
  assume a: "log_gradients (grads x) = Inr () \<and> flush_due b li = Inr True \<and> n \<noteq> 0"
  show "if num_predictions (accumulate c x) = 0
        then train_batches li ep n b c (x # xs) = ([OptimizerStep], Some ZeroDivisionError)
        else \<exists>p c'. train_point ep n b x (accumulate c x) = Inr p \<and>
              c' = reset (accumulate c x) \<and>
              train_batches li ep n b c (x # xs) =
                (OptimizerStep # p # fst (train_batches li ep n (Suc b) c' xs),
                 snd (train_batches li ep n (Suc b) c' xs)) \<and>
              num_correct c' = 0 \<and> num_incorrect_localization c' = 0 \<and>
              num_incorrect_other c' = 0 \<and> num_incorrect_background c' = 0 \<and>
              num_predictions c' = 0"
  proof (cases "num_predictions (accumulate c x) = 0")
    case True
    then have "train_point ep n b x (accumulate c x) = Inl ZeroDivisionError"
      by (simp add: train_point_def ratios_def)
    then show ?thesis using a True by (simp add: Let_def)
  next
    case False
    then obtain p where p: "train_point ep n b x (accumulate c x) = Inr p"
      using train_point_ok [of "accumulate c x" n ep b x] a by auto
    have "train_batches li ep n b c (x # xs) =
                (OptimizerStep # p # fst (train_batches li ep n (Suc b) (reset (accumulate c x)) xs),
                 snd (train_batches li ep n (Suc b) (reset (accumulate c x)) xs))"
      using a p by (simp add: Let_def case_prod_unfold)
    moreover have "num_correct (reset (accumulate c x)) = 0 \<and>
           num_incorrect_localization (reset (accumulate c x)) = 0 \<and>
           num_incorrect_other (reset (accumulate c x)) = 0 \<and>
           num_incorrect_background (reset (accumulate c x)) = 0 \<and>
           num_predictions (reset (accumulate c x)) = 0"
      by (simp add: reset_def)
    ultimately show ?thesis using False p by auto
  qed
next
  assume "sum_list (map len_y dl) = 0"
  then show "test_step dl e = ([ModelEval], Some ZeroDivisionError)" by (rule test_step_zero)
next
  assume "sum_list (map len_y dl) \<noteq> 0"
  then show "\<exists>p. test_step dl e = ([ModelEval, p], None)" by (rule test_step_nonzero)
qed

theorem flush_policy_witness:
  "log_gradients (grads (obs 3)) = Inr () \<and> flush_due 2 2 = Inr True \<and> (3::nat) \<noteq> 0 \<and>
   num_predictions (accumulate (foldl accumulate zero_counters [obs 1, obs 2]) (obs 3)) \<noteq> 0 \<and>
   (\<exists>p. train_batches 2 0 3 2 (foldl accumulate zero_counters [obs 1, obs 2]) [obs 3] =
              ([OptimizerStep, p], None)) \<and>
   sum_list (map len_y ([] :: batch list)) = 0 \<and>
   test_step [] 1 = ([ModelEval], Some ZeroDivisionError) \<and>
   sum_list (map len_y [obs 4]) \<noteq> 0 \<and>
   (\<exists>p. test_step [obs 4] 1 = ([ModelEval, p], None))"
proof -
  let ?c = "foldl accumulate zero_counters [obs 1, obs 2]"
  have g: "log_gradients (grads (obs 3)) = Inr ()" by (simp add: obs_def py_div_def)
  have f: "flush_due 2 2 = Inr True" by (simp add: flush_due_def)
  have n: "(3::nat) \<noteq> 0" by simp
  have np: "num_predictions (accumulate ?c (obs 3)) \<noteq> 0"
    by (simp add: accumulate_def zero_counters_def obs_def)
  have z: "sum_list (map len_y ([] :: batch list)) = 0" by simp
  have nz: "sum_list (map len_y [obs 4]) \<noteq> 0" by (simp add: obs_def)
  note fp = flush_policy [of "obs 3" 2 2 3 ?c 0 "[]" "[]" 1]
    flush_policy [of "obs 3" 2 2 3 ?c 0 "[]" "[obs 4]" 1]
  have t: "\<exists>p. train_batches 2 0 3 2 ?c [obs 3] = ([OptimizerStep, p], None)"
    using fp(1) g f n np by auto
  have e0: "test_step [] 1 = ([ModelEval], Some ZeroDivisionError)"
    using fp(1) z by blast
  have e1: "\<exists>p. test_step [obs 4] 1 = ([ModelEval, p], None)"
    using fp(2) nz by blast
  from g f n np t z e0 nz e1 show ?thesis by blast
qed

section \<open>Properties of the entry point\<close>

text \<open>
  Claim C2. With \<^verbatim>\<open>--continue_from_checkpoint_path\<close> given (and a run id as well),
  the condition of line 66 is false: \<^verbatim>\<open>load_checkpoint\<close> is not called, and training
  starts at epoch 0 for \<^verbatim>\<open>num_epochs\<close> epochs. Only without the path is the loader
  called, with the run id and the path \<open>None\<close>.
\<close>

theorem explicit_path_ignored:
  "train_args False epoch_six cli =
     ([CreateDataloaders 32, BuildModel ''cpu'', NewRunManager ''r2'', LogData, LogFiles,
       EngineTrain 0 10, EndRun], None) \<and>
   resume epoch_six cli = ([], Inr 0) \<and>
   resume epoch_six (cli\<lparr>continue_from_checkpoint_path := None\<rparr>) =
     ([LoadCheckpoint ''r1'' None], Inr 6)"
  by (simp add: train_args_def resume_def cli_def epoch_six_def)

lemma resume_with_path:
  "continue_from_checkpoint_path a = Some p \<Longrightarrow> resume load a = ([], Inr 0)"
  by (simp add: resume_def split: option.splits)

text \<open>
  Claim C8. An answer whose lower-case form is not \<^verbatim>\<open>yes\<close> raises before
  \<^verbatim>\<open>train(args)\<close> is called: the only event is the prompt; no data loader, model or
  run manager is made.
\<close>

theorem refusal_aborts:
  assumes "lower inp \<noteq> ''yes''"
  shows "main cuda load a inp = ([Input (run_id a)], Some (Exception ''Type yes on input...''))"
  using assms by (simp add: main_def)

lemma lower_no: "lower ''no'' = ''no''"
  by (simp add: lower_def lower_char_def)

lemma lower_YES: "lower ''YeS'' = ''yes''"
  by (simp add: lower_def lower_char_def)

theorem refusal_aborts_witness:
  "lower ''no'' \<noteq> ''yes'' \<and>
   main False epoch_six cli ''no'' = ([Input ''r2''], Some (Exception ''Type yes on input...'')) \<and>
   main False epoch_six cli ''YeS'' =
     ([Input ''r2'', PrintStarting ''r2'', CreateDataloaders 32, BuildModel ''cpu'',
       NewRunManager ''r2'', LogData, LogFiles, EngineTrain 0 10, EndRun], None)"
proof -
  have n: "lower ''no'' \<noteq> ''yes''" by (simp add: lower_no)
  have "main False epoch_six cli ''no'' =
          ([Input (run_id cli)], Some (Exception ''Type yes on input...''))"
    using refusal_aborts [OF n] .
  moreover have "run_id cli = ''r2''" by (simp add: cli_def)
  moreover have "main False epoch_six cli ''YeS'' =
     ([Input ''r2'', PrintStarting ''r2'', CreateDataloaders 32, BuildModel ''cpu'',
       NewRunManager ''r2'', LogData, LogFiles, EngineTrain 0 10, EndRun], None)"
    by (simp add: main_def lower_YES train_args_def resume_def cli_def epoch_six_def)
  ultimately show ?thesis using n by simp
qed

end
